theory Spec2Isabelle
  imports Main
begin

section \<open>Translate-SRT: the subtitle translation function of index.js\<close>

text \<open>
  The module exports one function, \<open>translateSRTFiles\<close>, and has one helper,
  \<open>processData\<close>. A JavaScript string is modelled as a \<open>string\<close> (a list of
  characters standing for the code units); the only characters the code inspects are the
  line feed, the decimal digits and the punctuation of a timestamp, all of them ASCII.
\<close>

subsection \<open>Constants of the module\<close>

definition MAX_SEGMENT_SIZE :: nat where
  "MAX_SEGMENT_SIZE = 128"

definition SOURCE_LANGUAGE :: string where
  "SOURCE_LANGUAGE = ''en''"

definition TARGET_LANGUAGE :: string where
  "TARGET_LANGUAGE = ''nl''"

definition TARGET_BUCKET :: string where
  "TARGET_BUCKET = ''cclabs-translate-target''"

subsection \<open>Strings: split and join on the line feed\<close>

abbreviation LF :: char where
  "LF \<equiv> CHR 0x0A"

text \<open>
  \<open>data.split(/\n/)\<close>: the segments between the line feeds, empty ones included. The
  pattern does not match the empty string, so the empty input gives one empty segment.
  The result is never empty; the first case branch below is therefore never taken.
\<close>

fun js_split_lf :: "string \<Rightarrow> string list" where
  "js_split_lf [] = [[]]"
| "js_split_lf (c # cs) =
     (if c = LF then [] # js_split_lf cs
      else (case js_split_lf cs of
              [] \<Rightarrow> [[c]]
            | l # ls \<Rightarrow> (c # l) # ls))"

text \<open>
  An element of a JavaScript array that the code joins is a string or \<open>undefined\<close>
  (the value of an out-of-range read). \<open>join\<close> renders \<open>undefined\<close> as the empty
  string.
\<close>

datatype jsval = Str string | Undefined

fun render :: "jsval \<Rightarrow> string" where
  "render (Str s) = s"
| "render Undefined = []"

fun join_lf :: "string list \<Rightarrow> string" where
  "join_lf [] = []"
| "join_lf [x] = x"
| "join_lf (x # y # ys) = x @ LF # join_lf (y # ys)"

definition js_join_lf :: "jsval list \<Rightarrow> string" where
  "js_join_lf xs = join_lf (map render xs)"

text \<open>\<open>xs[i]\<close>: reading past the end gives \<open>undefined\<close>.\<close>

definition js_index :: "string list \<Rightarrow> nat \<Rightarrow> jsval" where
  "js_index xs i = (if i < length xs then Str (xs ! i) else Undefined)"

text \<open>
  \<open>xs[i] = v\<close>: writing past the end extends the array; the holes in between read as
  \<open>undefined\<close> and join as the empty string, like \<open>Undefined\<close>.
\<close>

definition js_set :: "jsval list \<Rightarrow> nat \<Rightarrow> jsval \<Rightarrow> jsval list" where
  "js_set xs i v =
     (if i < length xs then xs[i := v]
      else xs @ replicate (i - length xs) Undefined @ [v])"

text \<open>
  \<open>xs.slice(start, end)\<close>: a negative bound counts from the end, and both bounds are
  clamped to the array.
\<close>

definition js_slice :: "'a list \<Rightarrow> int \<Rightarrow> int \<Rightarrow> 'a list" where
  "js_slice xs start end =
     (let len = int (length xs);
          k = (if start < 0 then max (len + start) 0 else min start len);
          final = (if end < 0 then max (len + end) 0 else min end len)
      in take (nat (final - k)) (drop (nat k) xs))"

subsection \<open>The two regular expressions\<close>

text \<open>
  Neither expression has the multiline flag, so \<open>^\<close> and \<open>$\<close> are the two ends of the
  string, and \<open>\d\<close> is one of the ten ASCII digits. A match is therefore the whole
  string; \<open>match\<close> returns \<open>null\<close> (here \<open>None\<close>) or an array whose element 0 is
  the matched text (here \<open>Some\<close> of it).
\<close>

definition is_digit :: "char \<Rightarrow> bool" where
  "is_digit c = (c \<in> set ''0123456789'')"

text \<open>\<open>/^\d+$/\<close>\<close>

definition match_INDEX_LINE :: "string \<Rightarrow> string option" where
  "match_INDEX_LINE s = (if s \<noteq> [] \<and> list_all is_digit s then Some s else None)"

datatype atom = Digit | Lit char

fun match_atoms :: "atom list \<Rightarrow> string \<Rightarrow> bool" where
  "match_atoms [] s = (s = [])"
| "match_atoms (a # as) [] = False"
| "match_atoms (Digit # as) (c # cs) = (is_digit c \<and> match_atoms as cs)"
| "match_atoms (Lit x # as) (c # cs) = (c = x \<and> match_atoms as cs)"

text \<open>\<open>\d{2}:\d{2}:\d{2},\d{3}\<close>\<close>

definition clock_atoms :: "atom list" where
  "clock_atoms =
     [Digit, Digit, Lit (CHR '':''), Digit, Digit, Lit (CHR '':''), Digit, Digit,
      Lit (CHR '',''), Digit, Digit, Digit]"

text \<open>\<open>/^\d{2}:\d{2}:\d{2},\d{3} --> \d{2}:\d{2}:\d{2},\d{3}$/\<close>\<close>

definition match_TIMESTAMP_LINE :: "string \<Rightarrow> string option" where
  "match_TIMESTAMP_LINE s =
     (if match_atoms (clock_atoms @ map Lit '' --> '' @ clock_atoms) s then Some s else None)"

subsection \<open>processData\<close>

text \<open>The field \<open>output\<close> of the source is \<open>output'\<close> here (\<open>output\<close> is reserved).\<close>

record resultData =
  sentences :: "string list"
  requestLines :: "nat list"
  output' :: "jsval list"

text \<open>The body of the callback of \<open>arrData.forEach\<close>, on one element and its index.\<close>

definition processLine :: "resultData \<Rightarrow> string \<Rightarrow> nat \<Rightarrow> resultData" where
  "processLine resultData element index =
     (case match_INDEX_LINE element of
        Some m0 \<Rightarrow>
          resultData\<lparr>sentences := sentences resultData @ [m0],
                     output' := output' resultData @ [Str m0]\<rparr>
      | None \<Rightarrow>
          (case match_TIMESTAMP_LINE element of
             Some m0 \<Rightarrow>
               resultData\<lparr>sentences := sentences resultData @ [m0],
                          output' := output' resultData @ [Str m0]\<rparr>
           | None \<Rightarrow>
               if element = [] then
                 resultData\<lparr>sentences := sentences resultData @ [[]],
                            output' := output' resultData @ [Str []]\<rparr>
               else
                 resultData\<lparr>sentences := sentences resultData @ [element],
                            output' := output' resultData @ [Str element],
                            requestLines := requestLines resultData @ [index]\<rparr>))"

fun forEach_processLine :: "resultData \<Rightarrow> nat \<Rightarrow> string list \<Rightarrow> resultData" where
  "forEach_processLine resultData index [] = resultData"
| "forEach_processLine resultData index (element # rest) =
     forEach_processLine (processLine resultData element index) (Suc index) rest"

definition processData :: "string \<Rightarrow> resultData" where
  "processData data =
     (let arrData = js_split_lf data
      in forEach_processLine \<lparr>sentences = [], requestLines = [], output' = []\<rparr> 0 arrData)"

subsection \<open>The pieces of translateSRTFiles that work on the parsed content\<close>

text \<open>The predicate of \<open>content.sentences.filter\<close>.\<close>

definition needsTranslation :: "string \<Rightarrow> bool" where
  "needsTranslation element =
     (let m = match_INDEX_LINE element;
          n = match_TIMESTAMP_LINE element
      in \<not> (m \<noteq> None \<or> n \<noteq> None \<or> element = []))"

text \<open>
  The callback of \<open>content.requestLines.forEach\<close>:
  \<open>content.output[position] = translations[i]\<close>, for the positions in order with their
  running index \<open>i\<close>.
\<close>

fun forEach_insert :: "jsval list \<Rightarrow> string list \<Rightarrow> nat \<Rightarrow> nat list \<Rightarrow> jsval list" where
  "forEach_insert out translations i [] = out"
| "forEach_insert out translations i (position # rest) =
     forEach_insert (js_set out position (js_index translations i)) translations (Suc i) rest"

definition insertTranslations :: "resultData \<Rightarrow> string list \<Rightarrow> resultData" where
  "insertTranslations content translations =
     content\<lparr>output' := forEach_insert (output' content) translations 0 (requestLines content)\<rparr>"

text \<open>
  \<open>results.forEach( segment => { translations = translations.concat(segment[0]); })\<close>,
  a result being the list of translated strings \<open>segment[0]\<close> of one request.
\<close>

definition concatSegments :: "string list list \<Rightarrow> string list" where
  "concatSegments results = foldl (\<lambda>translations segment. translations @ segment) [] results"

text \<open>
  The loop that breaks the request up. The segment size is a parameter here (the source
  fixes it to \<open>MAX_SEGMENT_SIZE\<close>). The list \<open>promises\<close> holds, for each call of
  \<open>translate.translate\<close> that the loop issues, the slice it is called with. With a segment
  size of 0 the loop never ends, so the result is an option, \<open>None\<close> for no result.
\<close>

partial_function (option)
  batchLoop :: "nat \<Rightarrow> string list \<Rightarrow> nat \<Rightarrow> string list list \<Rightarrow> string list list option"
where
  "batchLoop maxSegmentSize filtered i promises =
     (if i < length filtered then
        (let from = int i;
             to = min (int (length filtered) - 1) (int i + int maxSegmentSize - 1)
         in batchLoop maxSegmentSize filtered (i + maxSegmentSize)
              (promises @ [js_slice filtered from (to + 1)]))
      else Some promises)"

declare batchLoop.simps [code]

subsection \<open>The name of the output file\<close>

text \<open>
  \<open>path.parse(p).base\<close> of Node (POSIX): the last component of the path, the slashes
  that end the path left out.
\<close>

definition path_base :: "string \<Rightarrow> string" where
  "path_base p =
     rev (takeWhile (\<lambda>c. c \<noteq> CHR ''/'') (dropWhile (\<lambda>c. c = CHR ''/'') (rev p)))"

text \<open>
  \<open>s.replace(pat, rep)\<close> with a string pattern: the first occurrence of \<open>pat\<close> is
  replaced, the others stay. (The replacement is used for texts without \<open>$\<close>, which
  \<open>replace\<close> would interpret.)
\<close>

fun js_replace :: "string \<Rightarrow> string \<Rightarrow> string \<Rightarrow> string" where
  "js_replace pat rep [] = (if pat = [] then rep else [])"
| "js_replace pat rep (c # cs) =
     (if take (length pat) (c # cs) = pat then rep @ drop (length pat) (c # cs)
      else c # js_replace pat rep cs)"

definition translatedFilename :: "string \<Rightarrow> string" where
  "translatedFilename name =
     js_replace (''-'' @ SOURCE_LANGUAGE) (''-'' @ TARGET_LANGUAGE) (path_base name)"

text \<open>
  For comparison, the rule in the words of the specification: the language token that
  ends the stem of the name (its last occurrence in the base name) is the one replaced.
\<close>

definition spec_translatedFilename :: "string \<Rightarrow> string" where
  "spec_translatedFilename name =
     rev (js_replace (rev (''-'' @ SOURCE_LANGUAGE)) (rev (''-'' @ TARGET_LANGUAGE))
            (rev (path_base name)))"

subsection \<open>The services the function calls, and what a run leaves behind\<close>

text \<open>
  A rejection reason or an error is modelled by its text (what \<open>${err}\<close> prints).
  The storage client, the translation client and the file system are parameters of the
  model: each says how its call settles. \<open>download\<close> gives the text that
  \<open>data.toString('utf-8')\<close> returns, or \<open>None\<close> when the promise resolves to a value
  that is not truthy; \<open>translate\<close> gives \<open>segment[0]\<close>, the list of translated strings;
  the callbacks of \<open>writeFile\<close> and \<open>unlink\<close> and the promise of \<open>upload\<close> give
  \<open>Some err\<close> or \<open>None\<close> for success. The translation requests run concurrently;
  \<open>settled\<close> lists the indices of the requests in the order in which they settle.
\<close>

type_synonym reason = string

record services =
  download :: "string \<Rightarrow> string \<Rightarrow> reason + string option"
  translate :: "string list \<Rightarrow> string \<Rightarrow> reason + string list"
  settled :: "nat list"
  writeFile :: "string \<Rightarrow> string \<Rightarrow> reason option"
  upload :: "string \<Rightarrow> string \<Rightarrow> string \<Rightarrow> reason option"
  unlink :: "string \<Rightarrow> reason option"

text \<open>The field \<open>data\<close> of the event.\<close>

record event_data =
  name :: "string option"
  bucket :: string
  resourceState :: "string option"
  contentType :: "string option"

text \<open>
  What a run does, in order: the lines it logs and the calls it makes to the services.
\<close>

datatype action =
    Log string
  | LogError string
  | Download string string
  | Translate "string list" string
  | WriteFile string string
  | Upload string string string
  | Unlink string

text \<open>
  The promise that \<open>translateSRTFiles\<close> returns resolves or rejects; or the function
  throws before it returns one.
\<close>

datatype outcome = Resolved | Rejected reason | Thrown reason

text \<open>
  A run: its actions, its outcome, and the variable \<open>content\<close> as the run leaves it
  (\<open>None\<close> while it is not assigned).
\<close>

record run =
  actions :: "action list"
  outcome :: outcome
  content :: "resultData option"

text \<open>A number in a template literal.\<close>

fun show_nat :: "nat \<Rightarrow> string" where
  "show_nat n =
     (if n < 10 then [''0123456789'' ! n]
      else show_nat (n div 10) @ [''0123456789'' ! (n mod 10)])"

declare show_nat.simps [simp del]

text \<open>
  \<open>Promise.all\<close>: if every promise is fulfilled, the values in the order of the
  promises; otherwise the reason of the promise that is rejected first, in the order in
  which they settle.
\<close>

fun first_rejection :: "(reason + 'a) list \<Rightarrow> reason option" where
  "first_rejection [] = None"
| "first_rejection (Inl err # rs) = Some err"
| "first_rejection (Inr v # rs) = first_rejection rs"

fun fulfilled_values :: "(reason + 'a) list \<Rightarrow> 'a list" where
  "fulfilled_values [] = []"
| "fulfilled_values (Inl err # rs) = fulfilled_values rs"
| "fulfilled_values (Inr v # rs) = v # fulfilled_values rs"

definition promise_all :: "nat list \<Rightarrow> (reason + 'a) list \<Rightarrow> reason + 'a list" where
  "promise_all order rs =
     (case first_rejection (map (\<lambda>i. rs ! i) (filter (\<lambda>i. i < length rs) order) @ rs) of
        Some err \<Rightarrow> Inl err
      | None \<Rightarrow> Inr (fulfilled_values rs))"

subsection \<open>translateSRTFiles, handler by handler\<close>

text \<open>In the handlers, \<open>filename\<close> is the variable \<open>translatedFilename\<close> of the source.\<close>

text \<open>The last \<open>.catch\<close> of the chain.\<close>

definition catch_failed :: "action list \<Rightarrow> resultData option \<Rightarrow> reason \<Rightarrow> run" where
  "catch_failed acts c err =
     \<lparr>actions = acts @ [LogError (''Failed to download, translate or upload file. '' @ err)],
      outcome = Rejected err,
      content = c\<rparr>"

text \<open>The handler that deletes the local file, and the last \<open>.then\<close>.\<close>

definition then_unlink :: "services \<Rightarrow> string \<Rightarrow> action list \<Rightarrow> resultData \<Rightarrow> run" where
  "then_unlink env filename acts c =
     (let localFilename = ''/tmp/'' @ filename;
          acts1 = acts @ [Log (''Deleting local file '' @ localFilename), Unlink localFilename]
      in case unlink env localFilename of
           Some err \<Rightarrow> catch_failed acts1 (Some c) err
         | None \<Rightarrow> \<lparr>actions = acts1 @ [Log ''Finished.''], outcome = Resolved, content = Some c\<rparr>)"

text \<open>The handler that uploads; its own \<open>.catch\<close> logs the error and resolves.\<close>

definition then_upload :: "services \<Rightarrow> string \<Rightarrow> action list \<Rightarrow> resultData \<Rightarrow> run" where
  "then_upload env filename acts c =
     (let localFilename = ''/tmp/'' @ filename;
          acts1 = acts @
            [Log (''Uploading local file '' @ filename @ '' to bucket '' @ TARGET_BUCKET),
             Upload TARGET_BUCKET localFilename filename]
      in case upload env TARGET_BUCKET localFilename filename of
           None \<Rightarrow>
             then_unlink env filename
               (acts1 @ [Log (localFilename @ '' uploaded to '' @ TARGET_BUCKET)]) c
         | Some err \<Rightarrow>
             then_unlink env filename
               (acts1 @ [LogError (''Error uploading translated file to bucket: '' @ err)]) c)"

text \<open>The handler that joins the output and writes the local file.\<close>

definition then_write :: "services \<Rightarrow> string \<Rightarrow> action list \<Rightarrow> resultData \<Rightarrow> run" where
  "then_write env filename acts c =
     (let output = js_join_lf (output' c);
          localFilename = ''/tmp/'' @ filename;
          acts1 = acts @
            [Log (''Writing translated file locally to '' @ localFilename @ ''.''),
             WriteFile localFilename output]
      in case writeFile env localFilename output of
           Some err \<Rightarrow> catch_failed acts1 (Some c) err
         | None \<Rightarrow> then_upload env filename acts1 c)"

text \<open>
  The handler that receives the text: the branch for truthy data. It has no result when
  the loop has none.
\<close>

definition then_translate :: "services \<Rightarrow> string \<Rightarrow> action list \<Rightarrow> string \<Rightarrow> run option" where
  "then_translate env filename acts data =
     (let c = processData data;
          filtered = filter needsTranslation (sentences c);
          acts1 = acts @
            [Log (''Lines read: '' @ show_nat (length (sentences c))),
             Log (show_nat (length filtered) @ '' lines of text need translation''),
             Log (''Batch size: '' @ show_nat MAX_SEGMENT_SIZE)]
      in case batchLoop MAX_SEGMENT_SIZE filtered 0 [] of
           None \<Rightarrow> None
         | Some requests \<Rightarrow>
             Some
               (let promises = map (\<lambda>segment. translate env segment TARGET_LANGUAGE) requests;
                    acts2 = acts1 @ map (\<lambda>segment. Translate segment TARGET_LANGUAGE) requests @
                      [Log (''Performing '' @ show_nat (length promises) @ '' translation requests'')]
                in case promise_all (settled env) promises of
                     Inr results \<Rightarrow>
                       then_write env filename
                         (acts2 @
                            [Log ''Translations done.'',
                             Log (show_nat (length results) @ '' segments returned'')])
                         (insertTranslations c (concatSegments results))
                   | Inl err \<Rightarrow>
                       catch_failed (acts2 @ [LogError (''Translation failed: '' @ err)]) (Some c)
                         (''One or more translations failed ('' @ err @ '')'')))"

text \<open>
  The exported function. The two tests on the event only log: control goes on to
  \<open>storage.bucket(object.bucket).file(object.name)\<close> in every case. With a name that is
  absent or empty that call throws (the storage client refuses a missing file name, and
  \<open>path.parse\<close> refuses \<open>undefined\<close>), so the function ends there. The bucket of
  the event is taken to be a name that the storage client accepts.
\<close>

definition translateSRTFiles :: "services \<Rightarrow> event_data \<Rightarrow> run option" where
  "translateSRTFiles env object =
     (let acts0 =
            (if resourceState object = Some ''not_exists'' then [Log ''This is a deletion event.'']
             else if name object = None \<or> name object = Some [] then [Log ''This is a deploy event.'']
             else [])
      in case name object of
           None \<Rightarrow>
             Some \<lparr>actions = acts0, outcome = Thrown ''A file name must be specified.'',
                   content = None\<rparr>
         | Some file_name \<Rightarrow>
             if file_name = [] then
               Some \<lparr>actions = acts0, outcome = Thrown ''A file name must be specified.'',
                     content = None\<rparr>
             else
               (let acts1 = acts0 @
                      [Log (''Processing new text file: '' @ file_name @ '' ('' @
                            (case contentType object of None \<Rightarrow> ''undefined'' | Some t \<Rightarrow> t) @
                            '')''),
                       Download (bucket object) file_name]
                in case download env (bucket object) file_name of
                     Inl err \<Rightarrow> Some (catch_failed acts1 None err)
                   | Inr None \<Rightarrow>
                       Some (catch_failed (acts1 @ [LogError ''Could not read data'']) None
                               ''Could not read data'')
                   | Inr (Some data) \<Rightarrow>
                       if data \<noteq> [] then
                         then_translate env (translatedFilename file_name) acts1 data
                       else
                         Some (catch_failed (acts1 @ [LogError ''Could not read data'']) None
                                 ''Could not read data'')))"

subsection \<open>Auxiliary definitions for the proofs\<close>

text \<open>
  The indices, counted from \<open>k\<close>, of the elements of a list that pass the filter of
  \<open>translateSRTFiles\<close>. It is used to describe \<open>requestLines\<close> in closed form.
\<close>

fun textPositions :: "nat \<Rightarrow> string list \<Rightarrow> nat list" where
  "textPositions k [] = []"
| "textPositions k (x # xs) =
     (if needsTranslation x then k # textPositions (Suc k) xs else textPositions (Suc k) xs)"

text \<open>A small subtitle file: one cue of two text lines, and the line feed that ends it.\<close>

definition sample_srt :: string where
  "sample_srt =
     ''1'' @ [LF] @ ''00:00:01,000 --> 00:00:02,000'' @ [LF] @ ''Hello'' @ [LF] @ ''world'' @ [LF]"

text \<open>
  Services for that file: the download gives it, the translation turns \<open>Hello\<close> into
  \<open>Hallo\<close> and leaves other lines as they are, and every call succeeds.
\<close>

definition sample_services :: services where
  "sample_services =
     \<lparr>download = (\<lambda>b n. Inr (Some sample_srt)),
      translate = (\<lambda>segment target. Inr (map (\<lambda>t. if t = ''Hello'' then ''Hallo'' else t) segment)),
      settled = [0],
      writeFile = (\<lambda>f t. None),
      upload = (\<lambda>b f d. None),
      unlink = (\<lambda>f. None)\<rparr>"

text \<open>The event of the local test of the repository, and the same file reported as deleted.\<close>

definition sample_event :: event_data where
  "sample_event =
     \<lparr>name = Some ''sample-en.txt'', bucket = ''cclabs-translate'',
      resourceState = Some ''exists'', contentType = Some ''text/plain''\<rparr>"

definition deletion_event :: event_data where
  "deletion_event = sample_event\<lparr>resourceState := Some ''not_exists''\<rparr>"

section \<open>Properties\<close>

subsection \<open>Splitting and joining\<close>

lemma js_split_lf_nonempty: "js_split_lf s \<noteq> []"
  by (induction s) (auto split: list.splits)

lemma join_lf_Cons: "ls \<noteq> [] \<Longrightarrow> join_lf (l # ls) = l @ LF # join_lf ls"
  by (cases ls) simp_all

lemma join_lf_js_split_lf: "join_lf (js_split_lf s) = s"
proof (induction s)
  case Nil
  show ?case by simp
next
  case (Cons c cs)
  show ?case
  proof (cases "c = LF")
    case True
    with Cons show ?thesis by (simp add: join_lf_Cons js_split_lf_nonempty)
  next
    case False
    obtain l ls where sp: "js_split_lf cs = l # ls"
      using js_split_lf_nonempty[of cs] by (cases "js_split_lf cs") auto
    with Cons False show ?thesis by (cases ls) auto
  qed
qed

lemma js_split_lf_no_LF: "l \<in> set (js_split_lf s) \<Longrightarrow> LF \<notin> set l"
  by (induction s arbitrary: l) (auto split: if_splits list.splits)

lemma js_split_lf_line: "LF \<notin> set l \<Longrightarrow> js_split_lf l = [l]"
  by (induction l) auto

lemma js_split_lf_append: "LF \<notin> set l \<Longrightarrow> js_split_lf (l @ LF # r) = l # js_split_lf r"
  by (induction l) auto

lemma js_split_lf_join_lf:
  "ls \<noteq> [] \<Longrightarrow> \<forall>l \<in> set ls. LF \<notin> set l \<Longrightarrow> js_split_lf (join_lf ls) = ls"
proof (induction ls rule: join_lf.induct)
  case 1
  then show ?case by simp
next
  case (2 x)
  then show ?case by (simp add: js_split_lf_line)
next
  case (3 x y ys)
  then show ?case by (simp add: js_split_lf_append)
qed

subsection \<open>processData in closed form\<close>

lemma match_INDEX_LINE_Some: "match_INDEX_LINE s = Some m \<Longrightarrow> m = s"
  by (auto simp: match_INDEX_LINE_def split: if_splits)

lemma match_TIMESTAMP_LINE_Some: "match_TIMESTAMP_LINE s = Some m \<Longrightarrow> m = s"
  by (auto simp: match_TIMESTAMP_LINE_def split: if_splits)

lemma processLine_eq:
  "processLine rd element index =
     rd\<lparr>sentences := sentences rd @ [element],
        output' := output' rd @ [Str element],
        requestLines := requestLines rd @ (if needsTranslation element then [index] else [])\<rparr>"
  by (auto simp: processLine_def needsTranslation_def
      dest!: match_INDEX_LINE_Some match_TIMESTAMP_LINE_Some split: option.splits)

lemma forEach_processLine_eq:
  "forEach_processLine rd k xs =
     rd\<lparr>sentences := sentences rd @ xs,
        output' := output' rd @ map Str xs,
        requestLines := requestLines rd @ textPositions k xs\<rparr>"
  by (induction xs arbitrary: rd k) (simp_all add: processLine_eq)

lemma processData_eq:
  "processData data =
     \<lparr>sentences = js_split_lf data,
      requestLines = textPositions 0 (js_split_lf data),
      output' = map Str (js_split_lf data)\<rparr>"
  by (simp add: processData_def forEach_processLine_eq Let_def)

lemma textPositions_bounds: "p \<in> set (textPositions k xs) \<Longrightarrow> k \<le> p \<and> p < k + length xs"
  by (induction xs arbitrary: k) (fastforce split: if_splits)+

lemma textPositions_sorted: "sorted_wrt (<) (textPositions k xs)"
  by (induction xs arbitrary: k) (auto dest: textPositions_bounds)

lemma textPositions_nth:
  "map (\<lambda>p. xs ! (p - k)) (textPositions k xs) = filter needsTranslation xs"
proof (induction xs arbitrary: k)
  case Nil
  show ?case by simp
next
  case (Cons x xs)
  have "map (\<lambda>p. (x # xs) ! (p - k)) (textPositions (Suc k) xs)
      = map (\<lambda>p. xs ! (p - Suc k)) (textPositions (Suc k) xs)"
  proof (rule map_cong[OF refl])
    fix p assume "p \<in> set (textPositions (Suc k) xs)"
    then have "Suc k \<le> p" by (auto dest: textPositions_bounds)
    then show "(x # xs) ! (p - k) = xs ! (p - Suc k)" by (simp add: Suc_diff_le)
  qed
  with Cons[of "Suc k"] show ?case by simp
qed

lemma textPositions_mem:
  "i < length xs \<Longrightarrow> (k + i \<in> set (textPositions k xs)) = needsTranslation (xs ! i)"
proof (induction xs arbitrary: k i)
  case Nil
  then show ?case by simp
next
  case (Cons x xs)
  show ?case
  proof (cases i)
    case 0
    then show ?thesis by (auto dest: textPositions_bounds)
  next
    case (Suc j)
    with Cons.prems have "j < length xs" by simp
    from Cons.IH[OF this, of "Suc k"] Suc show ?thesis by auto
  qed
qed

subsection \<open>Inserting the translations\<close>

lemma forEach_insert_length:
  "\<forall>p \<in> set ps. p < length out \<Longrightarrow> length (forEach_insert out tr i ps) = length out"
  by (induction ps arbitrary: out i) (simp_all add: js_set_def)

lemma forEach_insert_other:
  "\<forall>p \<in> set ps. p < length out \<Longrightarrow> q \<notin> set ps \<Longrightarrow> forEach_insert out tr i ps ! q = out ! q"
  by (induction ps arbitrary: out i) (auto simp: js_set_def)

lemma forEach_insert_at:
  "\<forall>p \<in> set ps. p < length out \<Longrightarrow> distinct ps \<Longrightarrow> j < length ps \<Longrightarrow>
   forEach_insert out tr i ps ! (ps ! j) = js_index tr (i + j)"
proof (induction ps arbitrary: out i j)
  case Nil
  then show ?case by simp
next
  case (Cons p ps)
  have bounds: "\<forall>q \<in> set ps. q < length (js_set out p (js_index tr i))"
    using Cons.prems(1) by (simp add: js_set_def)
  show ?case
  proof (cases j)
    case 0
    with Cons.prems bounds show ?thesis
      by (simp add: forEach_insert_other) (simp add: js_set_def)
  next
    case (Suc j')
    with Cons.prems have "j' < length ps" "distinct ps" by simp_all
    from Cons.IH[OF bounds this(2) this(1), of "Suc i"] Suc show ?thesis by simp
  qed
qed

lemma forEach_insert_same:
  "\<forall>p \<in> set ps. p < length out \<Longrightarrow>
   \<forall>j < length ps. js_index tr (i + j) = out ! (ps ! j) \<Longrightarrow>
   forEach_insert out tr i ps = out"
proof (induction ps arbitrary: i)
  case Nil
  show ?case by simp
next
  case (Cons p ps)
  from Cons.prems(2) have "js_index tr i = out ! p" by fastforce
  then have same: "js_set out p (js_index tr i) = out"
    using Cons.prems(1) by (simp add: js_set_def)
  have "\<forall>j < length ps. js_index tr (Suc i + j) = out ! (ps ! j)"
    using Cons.prems(2) by fastforce
  with Cons.IH[of "Suc i"] Cons.prems(1) same show ?case by simp
qed

lemma identity_insert:
  "insertTranslations (processData data) (filter needsTranslation (sentences (processData data)))
     = processData data"
proof -
  let ?xs = "js_split_lf data"
  let ?ps = "textPositions 0 ?xs"
  have b: "\<forall>p \<in> set ?ps. p < length (map Str ?xs)"
    by (auto dest: textPositions_bounds)
  have len: "length (filter needsTranslation ?xs) = length ?ps"
    using textPositions_nth[of ?xs 0, THEN arg_cong, of length] by simp
  have "\<forall>j < length ?ps. js_index (filter needsTranslation ?xs) (0 + j) = map Str ?xs ! (?ps ! j)"
  proof (intro allI impI)
    fix j assume j: "j < length ?ps"
    then have "?ps ! j < length ?xs" using b by (metis length_map nth_mem)
    moreover have "filter needsTranslation ?xs ! j = ?xs ! (?ps ! j)"
      using textPositions_nth[of ?xs 0, symmetric] j by simp
    ultimately show "js_index (filter needsTranslation ?xs) (0 + j) = map Str ?xs ! (?ps ! j)"
      using j len by (simp add: js_index_def)
  qed
  from forEach_insert_same[OF b this] show ?thesis
    by (simp add: insertTranslations_def processData_eq)
qed

subsection \<open>The batch loop\<close>

lemma js_slice_segment:
  "i < length xs \<Longrightarrow>
   js_slice xs (int i) (min (int (length xs) - 1) (int i + int m - 1) + 1) = take m (drop i xs)"
proof -
  assume i: "i < length xs"
  show ?thesis
  proof (cases "i + m \<le> length xs")
    case True
    with i show ?thesis by (simp add: js_slice_def Let_def min_def)
  next
    case False
    with i show ?thesis by (simp add: js_slice_def Let_def min_def)
  qed
qed

lemma batchLoop_stop: "\<not> i < length xs \<Longrightarrow> batchLoop m xs i acc = Some acc"
  by (subst batchLoop.simps) simp

lemma batchLoop_step:
  "i < length xs \<Longrightarrow>
   batchLoop m xs i acc = batchLoop m xs (i + m) (acc @ [take m (drop i xs)])"
  by (subst batchLoop.simps) (simp add: Let_def js_slice_segment)

lemma batchLoop_result:
  assumes m: "1 \<le> m"
  shows "\<exists>bs. batchLoop m xs i acc = Some (acc @ bs) \<and> concat bs = drop i xs
           \<and> (\<forall>b \<in> set bs. b \<noteq> [] \<and> length b \<le> m)
           \<and> (\<forall>b \<in> set (butlast bs). length b = m)"
proof (induction "length xs - i" arbitrary: i acc rule: less_induct)
  case less
  show ?case
  proof (cases "i < length xs")
    case False
    have "batchLoop m xs i acc = Some (acc @ [])"
      using False by (simp add: batchLoop_stop)
    moreover have "concat [] = drop i xs" using False by simp
    ultimately show ?thesis by fastforce
  next
    case True
    define b where "b = take m (drop i xs)"
    from True m have "length xs - (i + m) < length xs - i" by simp
    from less[OF this, of "acc @ [b]"]
    obtain bs where bs1: "batchLoop m xs (i + m) (acc @ [b]) = Some ((acc @ [b]) @ bs)"
      and bs2: "concat bs = drop (i + m) xs"
      and bs3: "\<forall>c \<in> set bs. c \<noteq> [] \<and> length c \<le> m"
      and bs4: "\<forall>c \<in> set (butlast bs). length c = m"
      by blast
    have "batchLoop m xs i acc = batchLoop m xs (i + m) (acc @ [b])"
      using True by (simp add: batchLoop_step b_def)
    with bs1 have step: "batchLoop m xs i acc = Some (acc @ b # bs)" by simp
    have "drop (i + m) xs = drop m (drop i xs)" by (simp add: add.commute)
    with bs2 have "concat bs = drop m (drop i xs)" by (rule trans)
    then have cc: "concat (b # bs) = drop i xs"
      unfolding b_def by (simp only: concat.simps append_take_drop_id)
    have ne: "b \<noteq> [] \<and> length b \<le> m" using True m by (simp add: b_def)
    have full: "length b = m" if "bs \<noteq> []"
    proof -
      from that obtain c where "c \<in> set bs" by (cases bs) auto
      with bs3 have "concat bs \<noteq> []" by auto
      with bs2 have "i + m < length xs" by simp
      then show "length b = m" by (simp add: b_def)
    qed
    have all: "\<forall>c \<in> set (b # bs). c \<noteq> [] \<and> length c \<le> m"
      using ne bs3 by simp
    have but: "\<forall>c \<in> set (butlast (b # bs)). length c = m"
      using bs4 full by simp
    from step cc all but show ?thesis by blast
  qed
qed

subsection \<open>Promise.all\<close>

lemma batchLoop_MAX_SEGMENT_SIZE:
  "\<exists>requests. batchLoop MAX_SEGMENT_SIZE filtered 0 [] = Some requests"
  using batchLoop_result[of MAX_SEGMENT_SIZE filtered 0 "[]"]
  by (auto simp: MAX_SEGMENT_SIZE_def)

lemma first_rejection_Some: "first_rejection rs = Some err \<Longrightarrow> Inl err \<in> set rs"
  by (induction rs rule: first_rejection.induct) auto

lemma first_rejection_None: "first_rejection rs = None \<Longrightarrow> Inl err \<notin> set rs"
  by (induction rs rule: first_rejection.induct) auto

lemma fulfilled_values_Inr: "fulfilled_values (map Inr vs) = vs"
  by (induction vs) auto

lemma promise_all_rejected:
  assumes "Inl cause \<in> set rs"
  shows "\<exists>err. promise_all order rs = Inl err \<and> Inl err \<in> set rs"
proof -
  let ?seen = "map (\<lambda>i. rs ! i) (filter (\<lambda>i. i < length rs) order) @ rs"
  have sub: "set ?seen \<subseteq> set rs" by auto
  from assms have "Inl cause \<in> set ?seen" by simp
  then obtain err where err: "first_rejection ?seen = Some err"
    using first_rejection_None[of ?seen cause] by (cases "first_rejection ?seen") auto
  from first_rejection_Some[OF err] sub have "Inl err \<in> set rs" by blast
  with err show ?thesis by (simp add: promise_all_def)
qed

lemma promise_all_fulfilled: "promise_all order (map Inr vs) = Inr vs"
proof -
  let ?rs = "map Inr vs :: (reason + 'a) list"
  let ?seen = "map (\<lambda>i. ?rs ! i) (filter (\<lambda>i. i < length ?rs) order) @ ?rs"
  have "first_rejection ?seen = None"
  proof (cases "first_rejection ?seen")
    case (Some err)
    from first_rejection_Some[OF this] have "Inl err \<in> set ?rs" by auto
    then show ?thesis by auto
  qed simp
  then show ?thesis by (simp add: promise_all_def fulfilled_values_Inr)
qed

subsection \<open>The handlers\<close>

lemma translateSRTFiles_download:
  assumes "name object = Some file_name" "file_name \<noteq> []"
  shows "translateSRTFiles env object =
    (let acts1 =
       (if resourceState object = Some ''not_exists'' then [Log ''This is a deletion event.''] else []) @
       [Log (''Processing new text file: '' @ file_name @ '' ('' @
             (case contentType object of None \<Rightarrow> ''undefined'' | Some t \<Rightarrow> t) @ '')''),
        Download (bucket object) file_name]
     in case download env (bucket object) file_name of
          Inl err \<Rightarrow> Some (catch_failed acts1 None err)
        | Inr None \<Rightarrow>
            Some (catch_failed (acts1 @ [LogError ''Could not read data'']) None ''Could not read data'')
        | Inr (Some data) \<Rightarrow>
            if data \<noteq> [] then then_translate env (translatedFilename file_name) acts1 data
            else Some (catch_failed (acts1 @ [LogError ''Could not read data'']) None
                         ''Could not read data''))"
  using assms by (simp add: translateSRTFiles_def Let_def)

lemma then_translate_rejected:
  assumes "batchLoop MAX_SEGMENT_SIZE (filter needsTranslation (sentences (processData data))) 0 []
             = Some requests"
    and "promise_all (settled env) (map (\<lambda>segment. translate env segment TARGET_LANGUAGE) requests)
             = Inl err"
  shows "then_translate env filename acts data =
     Some (catch_failed
       (acts @
          [Log (''Lines read: '' @ show_nat (length (sentences (processData data)))),
           Log (show_nat (length (filter needsTranslation (sentences (processData data))))
                  @ '' lines of text need translation''),
           Log (''Batch size: '' @ show_nat MAX_SEGMENT_SIZE)] @
          map (\<lambda>segment. Translate segment TARGET_LANGUAGE) requests @
          [Log (''Performing '' @ show_nat (length requests) @ '' translation requests''),
           LogError (''Translation failed: '' @ err)])
       (Some (processData data))
       (''One or more translations failed ('' @ err @ '')''))"
  using assms by (simp add: then_translate_def Let_def)

lemma then_translate_fulfilled:
  assumes "batchLoop MAX_SEGMENT_SIZE (filter needsTranslation (sentences (processData data))) 0 []
             = Some requests"
    and "map (\<lambda>segment. translate env segment TARGET_LANGUAGE) requests = map Inr results"
  shows "then_translate env filename acts data =
     Some (then_write env filename
       (acts @
          [Log (''Lines read: '' @ show_nat (length (sentences (processData data)))),
           Log (show_nat (length (filter needsTranslation (sentences (processData data))))
                  @ '' lines of text need translation''),
           Log (''Batch size: '' @ show_nat MAX_SEGMENT_SIZE)] @
          map (\<lambda>segment. Translate segment TARGET_LANGUAGE) requests @
          [Log (''Performing '' @ show_nat (length requests) @ '' translation requests''),
           Log ''Translations done.'',
           Log (show_nat (length results) @ '' segments returned'')])
       (insertTranslations (processData data) (concatSegments results)))"
proof -
  from assms(2) have "length requests = length results"
    by (metis length_map)
  with assms show ?thesis
    by (simp add: then_translate_def Let_def promise_all_fulfilled)
qed

lemma actions_then_unlink: "set acts \<subseteq> set (actions (then_unlink env filename acts c))"
  by (auto simp: then_unlink_def catch_failed_def Let_def split: option.splits)

lemma actions_then_upload: "set acts \<subseteq> set (actions (then_upload env filename acts c))"
  unfolding then_upload_def Let_def
  by (cases "upload env TARGET_BUCKET (''/tmp/'' @ filename) filename")
     (use actions_then_unlink in \<open>fastforce+\<close>)

lemma actions_then_write: "set acts \<subseteq> set (actions (then_write env filename acts c))"
  unfolding then_write_def Let_def
  by (cases "writeFile env (''/tmp/'' @ filename) (js_join_lf (output' c))")
     (use actions_then_upload in \<open>fastforce simp: catch_failed_def\<close>)+

lemma then_translate_returns:
  "\<exists>r. then_translate env filename acts data = Some r \<and> set acts \<subseteq> set (actions r)"
proof -
  obtain requests where
    "batchLoop MAX_SEGMENT_SIZE (filter needsTranslation (sentences (processData data))) 0 []
       = Some requests"
    using batchLoop_MAX_SEGMENT_SIZE by blast
  then show ?thesis
    unfolding then_translate_def Let_def
    by (cases "promise_all (settled env)
                 (map (\<lambda>segment. translate env segment TARGET_LANGUAGE) requests)")
       (use actions_then_write in \<open>fastforce simp: catch_failed_def\<close>)+
qed

subsection \<open>The sample run\<close>

lemma sample_srt_lines:
  "js_split_lf sample_srt = [''1'', ''00:00:01,000 --> 00:00:02,000'', ''Hello'', ''world'', []]"
  by (simp add: sample_srt_def)

lemma sample_srt_content:
  "processData sample_srt =
     \<lparr>sentences = [''1'', ''00:00:01,000 --> 00:00:02,000'', ''Hello'', ''world'', []],
      requestLines = [2, 3],
      output' = [Str ''1'', Str ''00:00:01,000 --> 00:00:02,000'', Str ''Hello'', Str ''world'', Str []]\<rparr>"
  by (simp add: processData_eq sample_srt_lines needsTranslation_def match_INDEX_LINE_def
      match_TIMESTAMP_LINE_def clock_atoms_def is_digit_def)

lemma sample_srt_filtered:
  "filter needsTranslation (sentences (processData sample_srt)) = [''Hello'', ''world'']"
  by (simp add: sample_srt_content needsTranslation_def match_INDEX_LINE_def
      match_TIMESTAMP_LINE_def clock_atoms_def is_digit_def)

lemma sample_srt_requests:
  "batchLoop MAX_SEGMENT_SIZE (filter needsTranslation (sentences (processData sample_srt))) 0 []
     = Some [[''Hello'', ''world'']]"
  by (simp add: sample_srt_filtered MAX_SEGMENT_SIZE_def batchLoop_step batchLoop_stop)

lemma sample_srt_nonempty: "sample_srt \<noteq> []"
  by (simp add: sample_srt_def)

lemma sample_filename: "translatedFilename ''sample-en.txt'' = ''sample-nl.txt''"
  by (simp add: translatedFilename_def path_base_def SOURCE_LANGUAGE_def TARGET_LANGUAGE_def)

lemma translateSRTFiles_reaches_write:
  assumes "name object = Some file_name" and "file_name \<noteq> []"
    and "download env (bucket object) file_name = Inr (Some data)" and "data \<noteq> []"
    and "batchLoop MAX_SEGMENT_SIZE (filter needsTranslation (sentences (processData data))) 0 []
           = Some requests"
    and "map (\<lambda>segment. translate env segment TARGET_LANGUAGE) requests = map Inr results"
  shows "\<exists>acts. translateSRTFiles env object =
            Some (then_write env (translatedFilename file_name) acts
                    (insertTranslations (processData data) (concatSegments results)))
          \<and> (\<forall>a \<in> set acts. (\<exists>line. a = Log line) \<or> a = Download (bucket object) file_name
                 \<or> (\<exists>request. a = Translate request TARGET_LANGUAGE))"
proof -
  define acts1 where "acts1 =
     (if resourceState object = Some ''not_exists'' then [Log ''This is a deletion event.''] else []) @
     [Log (''Processing new text file: '' @ file_name @ '' ('' @
           (case contentType object of None \<Rightarrow> ''undefined'' | Some t \<Rightarrow> t) @ '')''),
      Download (bucket object) file_name]"
  have "translateSRTFiles env object =
          then_translate env (translatedFilename file_name) acts1 data"
    using assms(1-4) by (simp add: translateSRTFiles_download Let_def acts1_def)
  then have "translateSRTFiles env object =
     Some (then_write env (translatedFilename file_name)
       (acts1 @
          [Log (''Lines read: '' @ show_nat (length (sentences (processData data)))),
           Log (show_nat (length (filter needsTranslation (sentences (processData data))))
                  @ '' lines of text need translation''),
           Log (''Batch size: '' @ show_nat MAX_SEGMENT_SIZE)] @
          map (\<lambda>segment. Translate segment TARGET_LANGUAGE) requests @
          [Log (''Performing '' @ show_nat (length requests) @ '' translation requests''),
           Log ''Translations done.'',
           Log (show_nat (length results) @ '' segments returned'')])
       (insertTranslations (processData data) (concatSegments results)))"
    by (simp only: then_translate_fulfilled[OF assms(5,6)])
  moreover have "\<forall>a \<in> set acts1. (\<exists>line. a = Log line) \<or> a = Download (bucket object) file_name
                 \<or> (\<exists>request. a = Translate request TARGET_LANGUAGE)"
    by (auto simp: acts1_def)
  ultimately show ?thesis by fastforce
qed

lemma deletion_event_downloaded:
  "\<exists>r. translateSRTFiles env deletion_event = Some r
     \<and> Log ''This is a deletion event.'' \<in> set (actions r)
     \<and> Download ''cclabs-translate'' ''sample-en.txt'' \<in> set (actions r)"
proof -
  let ?acts = "[Log ''This is a deletion event.'',
     Log ''Processing new text file: sample-en.txt (text/plain)'',
     Download ''cclabs-translate'' ''sample-en.txt'']"
  note defs = translateSRTFiles_def deletion_event_def sample_event_def Let_def catch_failed_def
  show ?thesis
  proof (cases "download env ''cclabs-translate'' ''sample-en.txt''")
    case (Inl err)
    then show ?thesis by (simp add: defs)
  next
    case (Inr d)
    show ?thesis
    proof (cases d)
      case None
      with Inr show ?thesis by (simp add: defs)
    next
      case (Some data)
      show ?thesis
      proof (cases "data = []")
        case True
        with Inr Some show ?thesis by (simp add: defs)
      next
        case False
        from then_translate_returns[of env "translatedFilename ''sample-en.txt''" ?acts data]
        obtain r where "then_translate env (translatedFilename ''sample-en.txt'') ?acts data = Some r"
          "set ?acts \<subseteq> set (actions r)" by blast
        with Inr Some False show ?thesis by (simp add: defs)
      qed
    qed
  qed
qed

lemma deletion_event_processed:
  "\<exists>r. translateSRTFiles sample_services deletion_event = Some r
     \<and> outcome r = Resolved
     \<and> Translate [''Hello'', ''world''] ''nl'' \<in> set (actions r)
     \<and> Upload ''cclabs-translate-target'' ''/tmp/sample-nl.txt'' ''sample-nl.txt'' \<in> set (actions r)"
proof -
  have tr: "map (\<lambda>segment. translate sample_services segment TARGET_LANGUAGE) [[''Hello'', ''world'']]
     = map Inr [[''Hallo'', ''world'']]"
    by (simp add: sample_services_def)
  have fn: "translatedFilename ''sample-en.txt'' = ''sample-nl.txt''"
    by (simp add: translatedFilename_def path_base_def SOURCE_LANGUAGE_def TARGET_LANGUAGE_def)
  have "translateSRTFiles sample_services deletion_event =
     then_translate sample_services ''sample-nl.txt''
       [Log ''This is a deletion event.'',
        Log ''Processing new text file: sample-en.txt (text/plain)'',
        Download ''cclabs-translate'' ''sample-en.txt''] sample_srt"
    by (simp add: translateSRTFiles_def deletion_event_def sample_event_def Let_def fn
        sample_srt_nonempty sample_services_def)
  then show ?thesis
    by (simp add: then_translate_fulfilled[OF sample_srt_requests tr])
       (simp add: then_write_def then_upload_def then_unlink_def sample_services_def Let_def
          TARGET_LANGUAGE_def TARGET_BUCKET_def)
qed

subsection \<open>The output after the translations are inserted\<close>

lemma render_js_index_no_LF:
  "\<forall>t \<in> set translations. LF \<notin> set t \<Longrightarrow> LF \<notin> set (render (js_index translations i))"
  by (simp add: js_index_def)

lemma merged_entries:
  assumes k: "k < length (js_split_lf data)"
  shows "output' (insertTranslations (processData data) translations) ! k = Str (js_split_lf data ! k)
         \<or> (\<exists>j < length (requestLines (processData data)).
               k = requestLines (processData data) ! j
               \<and> output' (insertTranslations (processData data) translations) ! k
                    = js_index translations j)"
proof -
  let ?xs = "js_split_lf data"
  let ?ps = "textPositions 0 ?xs"
  have b: "\<forall>p \<in> set ?ps. p < length (map Str ?xs)"
    by (auto dest: textPositions_bounds)
  have d: "distinct ?ps"
    using textPositions_sorted[of 0 ?xs] by (simp add: strict_sorted_iff)
  show ?thesis
  proof (cases "k \<in> set ?ps")
    case False
    from forEach_insert_other[OF b False, of "translations" 0] k show ?thesis
      by (simp add: insertTranslations_def processData_eq)
  next
    case True
    then obtain j where j: "j < length ?ps" "k = ?ps ! j" by (auto simp: in_set_conv_nth)
    from forEach_insert_at[OF b d j(1), of "translations" 0] j show ?thesis
      by (auto simp: insertTranslations_def processData_eq)
  qed
qed

lemma merged_length:
  "length (output' (insertTranslations (processData data) translations)) = length (js_split_lf data)"
proof -
  have "\<forall>p \<in> set (textPositions 0 (js_split_lf data)). p < length (map Str (js_split_lf data))"
    by (auto dest: textPositions_bounds)
  from forEach_insert_length[OF this] show ?thesis
    by (simp add: insertTranslations_def processData_eq)
qed

lemma merged_unchanged:
  assumes "k < length (js_split_lf data)" "\<not> needsTranslation (js_split_lf data ! k)"
  shows "output' (insertTranslations (processData data) translations) ! k = Str (js_split_lf data ! k)"
proof -
  let ?xs = "js_split_lf data"
  have b: "\<forall>p \<in> set (textPositions 0 ?xs). p < length (map Str ?xs)"
    by (auto dest: textPositions_bounds)
  from textPositions_mem[OF assms(1), of 0] assms(2) have "k \<notin> set (textPositions 0 ?xs)" by simp
  from forEach_insert_other[OF b this, of "translations" 0] assms(1) show ?thesis
    by (simp add: insertTranslations_def processData_eq)
qed

lemma merged_surplus:
  assumes "length translations \<le> i" "i < length (requestLines (processData data))"
  shows "output' (insertTranslations (processData data) translations)
           ! (requestLines (processData data) ! i) = Undefined"
proof -
  let ?xs = "js_split_lf data"
  let ?ps = "textPositions 0 ?xs"
  have b: "\<forall>p \<in> set ?ps. p < length (map Str ?xs)"
    by (auto dest: textPositions_bounds)
  have d: "distinct ?ps"
    using textPositions_sorted[of 0 ?xs] by (simp add: strict_sorted_iff)
  from assms(2) have "i < length ?ps" by (simp add: processData_eq)
  from forEach_insert_at[OF b d this, of "translations" 0] assms(1) show ?thesis
    by (simp add: insertTranslations_def processData_eq js_index_def)
qed

lemma merged_lines:
  assumes "\<forall>t \<in> set translations. LF \<notin> set t"
  shows "js_split_lf (js_join_lf (output' (insertTranslations (processData data) translations)))
           = map render (output' (insertTranslations (processData data) translations))"
proof -
  let ?out = "output' (insertTranslations (processData data) translations)"
  have len: "length ?out = length (js_split_lf data)" by (rule merged_length)
  have ne: "map render ?out \<noteq> []"
    using len js_split_lf_nonempty[of data] by auto
  have "\<forall>l \<in> set (map render ?out). LF \<notin> set l"
  proof
    fix l assume "l \<in> set (map render ?out)"
    then obtain k where k: "k < length ?out" "l = render (?out ! k)"
      by (auto simp: in_set_conv_nth)
    with len have k': "k < length (js_split_lf data)" by simp
    from merged_entries[OF k', of "translations"] show "LF \<notin> set l"
    proof
      assume "?out ! k = Str (js_split_lf data ! k)"
      with k k' js_split_lf_no_LF[of "js_split_lf data ! k" data] show ?thesis by simp
    next
      assume "\<exists>j < length (requestLines (processData data)).
               k = requestLines (processData data) ! j \<and> ?out ! k = js_index translations j"
      with k render_js_index_no_LF[OF assms] show ?thesis by auto
    qed
  qed
  from js_split_lf_join_lf[OF ne this] show ?thesis by (simp add: js_join_lf_def)
qed

section \<open>The claims\<close>

text \<open>
  C1. For every input text, parsing it with \<open>processData\<close> and joining the output array
  with the line feed gives the input text back: both when the output is left at its
  defaults, and when every text line is translated to itself, that is, when the
  translations inserted are the filtered lines themselves.
\<close>

theorem C1_parse_then_join_is_identity:
  "js_join_lf (output' (processData data)) = data
   \<and> js_join_lf (output' (insertTranslations (processData data)
         (filter needsTranslation (sentences (processData data))))) = data"
proof -
  have "js_join_lf (output' (processData data)) = data"
    by (simp add: js_join_lf_def processData_eq comp_def join_lf_js_split_lf)
  then show ?thesis by (simp add: identity_insert)
qed

text \<open>
  C2. The claim is that an event with \<open>resourceState\<close> \<open>not_exists\<close> is only logged.
  The function logs it and goes on: whatever the services answer, the run of the deletion
  event contains the download of the deleted file; with services that succeed the file is
  translated and uploaded, and the promise resolves.
\<close>

theorem C2_deletion_event_is_processed:
  "(\<exists>r. translateSRTFiles env deletion_event = Some r
        \<and> Log ''This is a deletion event.'' \<in> set (actions r)
        \<and> Download ''cclabs-translate'' ''sample-en.txt'' \<in> set (actions r))
   \<and> (\<exists>r. translateSRTFiles sample_services deletion_event = Some r
        \<and> outcome r = Resolved
        \<and> Translate [''Hello'', ''world''] ''nl'' \<in> set (actions r)
        \<and> Upload ''cclabs-translate-target'' ''/tmp/sample-nl.txt'' ''sample-nl.txt''
              \<in> set (actions r))"
  using deletion_event_downloaded deletion_event_processed by blast

text \<open>
  C3. For every list of lines and every segment size of at least 1, the batch loop
  returns; the slices it passes to the translation calls, concatenated in order, are the
  list; none is longer than the segment size, and all but the last have exactly that size.
  Five lines with a segment size of 2 give slices of sizes 2, 2 and 1.
\<close>

theorem C3_batchLoop_partitions:
  "(1 \<le> maxBatchSize \<longrightarrow>
      (\<exists>batches. batchLoop maxBatchSize filtered 0 [] = Some batches
         \<and> concat batches = filtered
         \<and> (\<forall>b \<in> set batches. length b \<le> maxBatchSize)
         \<and> (\<forall>b \<in> set (butlast batches). length b = maxBatchSize)))
   \<and> (length five = 5 \<longrightarrow>
      (\<exists>batches. batchLoop 2 five 0 [] = Some batches \<and> map length batches = [2, 2, 1]))"
proof (intro conjI impI)
  assume "1 \<le> maxBatchSize"
  from batchLoop_result[OF this, of filtered 0 "[]"]
  show "\<exists>batches. batchLoop maxBatchSize filtered 0 [] = Some batches
         \<and> concat batches = filtered
         \<and> (\<forall>b \<in> set batches. length b \<le> maxBatchSize)
         \<and> (\<forall>b \<in> set (butlast batches). length b = maxBatchSize)"
    by auto
next
  assume "length five = 5"
  then obtain a b c d e where "five = [a, b, c, d, e]"
    by (auto simp: length_Suc_conv eval_nat_numeral)
  then show "\<exists>batches. batchLoop 2 five 0 [] = Some batches \<and> map length batches = [2, 2, 1]"
    by (simp add: batchLoop_step batchLoop_stop)
qed

theorem C3_batchLoop_partitions_witness:
  "(1::nat) \<le> 2 \<and> length [''a'', ''b'', ''c'', ''d'', ''e''] = 5
   \<and> batchLoop 2 [''a'', ''b'', ''c'', ''d'', ''e''] 0 [] = Some [[''a'', ''b''], [''c'', ''d''], [''e'']]
   \<and> concat [[''a'', ''b''], [''c'', ''d''], [''e'']] = [''a'', ''b'', ''c'', ''d'', ''e'']"
  using C3_batchLoop_partitions [of 2 "[''a'', ''b'', ''c'', ''d'', ''e'']" "[''a'', ''b'', ''c'', ''d'', ''e'']"]
  by (simp add: batchLoop_step batchLoop_stop)

text \<open>
  C4. If the call for one of the segments fails, the run returns and its promise is
  rejected with \<open>One or more translations failed (err)\<close>, \<open>err\<close> being the reason of
  a failed call; \<open>content\<close> is as \<open>processData\<close> left it, so no translation has been
  inserted; and the run neither writes nor uploads a file.
\<close>

theorem C4_failed_batch_rejects_the_run:
  assumes "name object = Some file_name" and "file_name \<noteq> []"
    and "download env (bucket object) file_name = Inr (Some data)" and "data \<noteq> []"
    and "batchLoop MAX_SEGMENT_SIZE (filter needsTranslation (sentences (processData data))) 0 []
           = Some requests"
    and "segment \<in> set requests"
    and "translate env segment TARGET_LANGUAGE = Inl cause"
  shows "\<exists>r err. translateSRTFiles env object = Some r
           \<and> outcome r = Rejected (''One or more translations failed ('' @ err @ '')'')
           \<and> (\<exists>failed \<in> set requests. translate env failed TARGET_LANGUAGE = Inl err)
           \<and> content r = Some (processData data)
           \<and> (\<forall>f t. WriteFile f t \<notin> set (actions r))
           \<and> (\<forall>b f d. Upload b f d \<notin> set (actions r))"
proof -
  let ?promises = "map (\<lambda>segment. translate env segment TARGET_LANGUAGE) requests"
  from assms(6,7) have "Inl cause \<in> set ?promises" by force
  from promise_all_rejected[OF this, of "settled env"]
  obtain err where err: "promise_all (settled env) ?promises = Inl err" "Inl err \<in> set ?promises"
    by blast
  from err(2) have failed: "\<exists>failed \<in> set requests. translate env failed TARGET_LANGUAGE = Inl err"
    by auto
  from assms(1-4) then_translate_rejected[OF assms(5) err(1)] failed
  show ?thesis
    by (auto simp: translateSRTFiles_download Let_def catch_failed_def)
qed

theorem C4_failed_batch_rejects_the_run_witness:
  "name sample_event = Some ''sample-en.txt'' \<and> ''sample-en.txt'' \<noteq> []
   \<and> download (sample_services\<lparr>translate := \<lambda>segment target. Inl ''quota''\<rparr>)
         (bucket sample_event) ''sample-en.txt'' = Inr (Some sample_srt)
   \<and> sample_srt \<noteq> []
   \<and> batchLoop MAX_SEGMENT_SIZE (filter needsTranslation (sentences (processData sample_srt))) 0 []
         = Some [[''Hello'', ''world'']]
   \<and> translate (sample_services\<lparr>translate := \<lambda>segment target. Inl ''quota''\<rparr>)
         [''Hello'', ''world''] TARGET_LANGUAGE = Inl ''quota''
   \<and> (\<exists>r. translateSRTFiles (sample_services\<lparr>translate := \<lambda>segment target. Inl ''quota''\<rparr>)
              sample_event = Some r
          \<and> outcome r = Rejected ''One or more translations failed (quota)''
          \<and> content r = Some (processData sample_srt)
          \<and> (\<forall>f t. WriteFile f t \<notin> set (actions r))
          \<and> (\<forall>b f d. Upload b f d \<notin> set (actions r)))"
  using C4_failed_batch_rejects_the_run
    [of sample_event "''sample-en.txt''"
        "sample_services\<lparr>translate := \<lambda>segment target. Inl ''quota''\<rparr>" sample_srt
        "[[''Hello'', ''world'']]" "[''Hello'', ''world'']" "''quota''"]
  by (simp add: sample_srt_requests sample_srt_nonempty)
     (auto simp: sample_event_def sample_services_def)

text \<open>
  C5, as stated, fails: the claim is for every translation, and a translated string may
  contain a line feed. The one line \<open>Hello\<close>, translated to a string with a line feed
  in it, gives an output of two lines.
\<close>

theorem C5_line_feed_in_translation_counterexample:
  "length (js_split_lf ''Hello'') = 1
   \<and> length (js_split_lf (js_join_lf (output' (insertTranslations (processData ''Hello'')
                 [''Hal'' @ [LF] @ ''lo''])))) = 2"
  by (simp add: processData_eq needsTranslation_def match_INDEX_LINE_def match_TIMESTAMP_LINE_def
      clock_atoms_def is_digit_def insertTranslations_def js_set_def js_index_def js_join_lf_def)

text \<open>
  C5, amended. For every input text and every list of translations, the output array has
  one entry for each line of the input. If no translated string contains a line feed, the
  output text has as many lines as the input, and every line of the input that is an index
  line, a timestamp line or empty (that is, fails the filter for the lines to translate)
  is the line of the output at the same position.
\<close>

theorem C5_lines_preserved_without_line_feed:
  "length (output' (insertTranslations (processData data) translations)) = length (js_split_lf data)
   \<and> ((\<forall>t \<in> set translations. LF \<notin> set t) \<longrightarrow>
         length (js_split_lf (js_join_lf (output' (insertTranslations (processData data) translations))))
           = length (js_split_lf data)
         \<and> (\<forall>k < length (js_split_lf data). \<not> needsTranslation (js_split_lf data ! k) \<longrightarrow>
               js_split_lf (js_join_lf (output' (insertTranslations (processData data) translations))) ! k
                 = js_split_lf data ! k))"
proof (intro conjI impI allI)
  show "length (output' (insertTranslations (processData data) translations)) = length (js_split_lf data)"
    by (rule merged_length)
next
  assume "\<forall>t \<in> set translations. LF \<notin> set t"
  then show "length (js_split_lf (js_join_lf (output' (insertTranslations (processData data) translations))))
           = length (js_split_lf data)"
    by (simp add: merged_lines merged_length)
next
  fix k
  assume nl: "\<forall>t \<in> set translations. LF \<notin> set t" and k: "k < length (js_split_lf data)"
    and "\<not> needsTranslation (js_split_lf data ! k)"
  then show "js_split_lf (js_join_lf (output' (insertTranslations (processData data) translations))) ! k
                 = js_split_lf data ! k"
    by (simp add: merged_lines merged_length merged_unchanged)
qed

theorem C5_lines_preserved_without_line_feed_witness:
  "LF \<notin> set ''Hallo'' \<and> LF \<notin> set ''wereld''
   \<and> (1::nat) < length (js_split_lf sample_srt)
   \<and> \<not> needsTranslation (js_split_lf sample_srt ! 1)
   \<and> length (js_split_lf (js_join_lf (output' (insertTranslations (processData sample_srt)
                 [''Hallo'', ''wereld''])))) = 5
   \<and> js_split_lf (js_join_lf (output' (insertTranslations (processData sample_srt)
          [''Hallo'', ''wereld'']))) ! 1 = ''00:00:01,000 --> 00:00:02,000''"
  using C5_lines_preserved_without_line_feed [of sample_srt "[''Hallo'', ''wereld'']"]
  by (simp add: sample_srt_lines needsTranslation_def match_INDEX_LINE_def match_TIMESTAMP_LINE_def
      clock_atoms_def is_digit_def)

text \<open>
  C6. If the download gives no data or the empty text, the run returns and its promise is
  rejected with \<open>Could not read data\<close>; what the run does after the download is to log
  two errors, and before it it only logs: no translation is requested, and no file is
  written, uploaded or deleted.
\<close>

theorem C6_no_data_rejects_before_translation:
  assumes "name object = Some file_name" and "file_name \<noteq> []"
    and "download env (bucket object) file_name = Inr data"
    and "data = None \<or> data = Some []"
  shows "\<exists>r logged. translateSRTFiles env object = Some r
           \<and> outcome r = Rejected ''Could not read data''
           \<and> actions r = logged @
                 [Download (bucket object) file_name,
                  LogError ''Could not read data'',
                  LogError ''Failed to download, translate or upload file. Could not read data'']
           \<and> (\<forall>a \<in> set logged. \<exists>line. a = Log line)"
  using assms
  by (auto simp: translateSRTFiles_download Let_def catch_failed_def)

theorem C6_no_data_rejects_before_translation_witness:
  "name sample_event = Some ''sample-en.txt'' \<and> ''sample-en.txt'' \<noteq> []
   \<and> download (sample_services\<lparr>download := \<lambda>b n. Inr (Some [])\<rparr>) (bucket sample_event) ''sample-en.txt''
        = Inr (Some [])
   \<and> (\<exists>r. translateSRTFiles (sample_services\<lparr>download := \<lambda>b n. Inr (Some [])\<rparr>) sample_event = Some r
          \<and> outcome r = Rejected ''Could not read data''
          \<and> actions r =
               [Log ''Processing new text file: sample-en.txt (text/plain)'',
                Download ''cclabs-translate'' ''sample-en.txt'',
                LogError ''Could not read data'',
                LogError ''Failed to download, translate or upload file. Could not read data''])"
  using C6_no_data_rejects_before_translation
    [of sample_event "''sample-en.txt''" "sample_services\<lparr>download := \<lambda>b n. Inr (Some [])\<rparr>" "Some []"]
  by (simp add: sample_event_def sample_services_def translateSRTFiles_def Let_def catch_failed_def)

text \<open>
  C7. Take a run whose download gives a text and whose translation calls all succeed. If
  writing the local file fails, the promise is rejected with that error, and nothing is
  uploaded or deleted. If the write succeeds, the upload fails and the deletion succeeds,
  the promise resolves: the run ends with the upload, the logged upload error, the deletion
  of the local file and \<open>Finished.\<close>. If the write succeeds and the deletion fails, the
  promise is rejected with the error of the deletion.
\<close>

theorem C7_upload_failure_is_logged_only:
  assumes "name object = Some file_name" and "file_name \<noteq> []"
    and "download env (bucket object) file_name = Inr (Some data)" and "data \<noteq> []"
    and "batchLoop MAX_SEGMENT_SIZE (filter needsTranslation (sentences (processData data))) 0 []
           = Some requests"
    and "map (\<lambda>segment. translate env segment TARGET_LANGUAGE) requests = map Inr results"
    and "filename = translatedFilename file_name"
    and "localFilename = ''/tmp/'' @ filename"
    and "output = js_join_lf (output' (insertTranslations (processData data) (concatSegments results)))"
  shows "(\<forall>err. writeFile env localFilename output = Some err \<longrightarrow>
            (\<exists>r. translateSRTFiles env object = Some r \<and> outcome r = Rejected err
               \<and> (\<forall>b f d. Upload b f d \<notin> set (actions r))
               \<and> (\<forall>f. Unlink f \<notin> set (actions r))))
       \<and> (\<forall>err. writeFile env localFilename output = None
               \<and> upload env TARGET_BUCKET localFilename filename = Some err
               \<and> unlink env localFilename = None \<longrightarrow>
            (\<exists>r before. translateSRTFiles env object = Some r \<and> outcome r = Resolved
               \<and> actions r = before @
                    [Upload TARGET_BUCKET localFilename filename,
                     LogError (''Error uploading translated file to bucket: '' @ err),
                     Log (''Deleting local file '' @ localFilename),
                     Unlink localFilename,
                     Log ''Finished.'']))
       \<and> (\<forall>err. writeFile env localFilename output = None
               \<and> unlink env localFilename = Some err \<longrightarrow>
            (\<exists>r. translateSRTFiles env object = Some r \<and> outcome r = Rejected err
               \<and> Unlink localFilename \<in> set (actions r)))"
proof -
  from translateSRTFiles_reaches_write[OF assms(1-6)] assms(7)
  obtain acts' where run: "translateSRTFiles env object =
     Some (then_write env filename acts'
            (insertTranslations (processData data) (concatSegments results)))"
    and early: "\<forall>a \<in> set acts'. (\<exists>line. a = Log line) \<or> a = Download (bucket object) file_name
                 \<or> (\<exists>request. a = Translate request TARGET_LANGUAGE)"
    by auto
  show ?thesis
  proof (intro conjI allI impI)
    fix err assume "writeFile env localFilename output = Some err"
    then show "\<exists>r. translateSRTFiles env object = Some r \<and> outcome r = Rejected err
               \<and> (\<forall>b f d. Upload b f d \<notin> set (actions r))
               \<and> (\<forall>f. Unlink f \<notin> set (actions r))"
      using run early assms(8,9)
      by (fastforce simp: then_write_def Let_def catch_failed_def)
  next
    fix err assume "writeFile env localFilename output = None
               \<and> upload env TARGET_BUCKET localFilename filename = Some err
               \<and> unlink env localFilename = None"
    then show "\<exists>r before. translateSRTFiles env object = Some r \<and> outcome r = Resolved
               \<and> actions r = before @
                    [Upload TARGET_BUCKET localFilename filename,
                     LogError (''Error uploading translated file to bucket: '' @ err),
                     Log (''Deleting local file '' @ localFilename),
                     Unlink localFilename,
                     Log ''Finished.'']"
      using run assms(8,9)
      by (simp add: then_write_def then_upload_def then_unlink_def Let_def)
  next
    fix err assume "writeFile env localFilename output = None
               \<and> unlink env localFilename = Some err"
    then show "\<exists>r. translateSRTFiles env object = Some r \<and> outcome r = Rejected err
               \<and> Unlink localFilename \<in> set (actions r)"
      using run assms(8,9)
      by (cases "upload env TARGET_BUCKET localFilename filename")
         (simp_all add: then_write_def then_upload_def then_unlink_def Let_def catch_failed_def)
  qed
qed

theorem C7_upload_failure_is_logged_only_witness:
  "name sample_event = Some ''sample-en.txt'' \<and> ''sample-en.txt'' \<noteq> []
   \<and> download (sample_services\<lparr>upload := \<lambda>b f d. Some ''forbidden''\<rparr>)
         (bucket sample_event) ''sample-en.txt'' = Inr (Some sample_srt)
   \<and> sample_srt \<noteq> []
   \<and> batchLoop MAX_SEGMENT_SIZE (filter needsTranslation (sentences (processData sample_srt))) 0 []
         = Some [[''Hello'', ''world'']]
   \<and> map (\<lambda>segment. translate (sample_services\<lparr>upload := \<lambda>b f d. Some ''forbidden''\<rparr>)
                segment TARGET_LANGUAGE) [[''Hello'', ''world'']] = map Inr [[''Hallo'', ''world'']]
   \<and> upload (sample_services\<lparr>upload := \<lambda>b f d. Some ''forbidden''\<rparr>)
         TARGET_BUCKET ''/tmp/sample-nl.txt'' ''sample-nl.txt'' = Some ''forbidden''
   \<and> unlink (sample_services\<lparr>upload := \<lambda>b f d. Some ''forbidden''\<rparr>) ''/tmp/sample-nl.txt'' = None
   \<and> (\<exists>r. translateSRTFiles (sample_services\<lparr>upload := \<lambda>b f d. Some ''forbidden''\<rparr>)
              sample_event = Some r
          \<and> outcome r = Resolved
          \<and> LogError ''Error uploading translated file to bucket: forbidden'' \<in> set (actions r)
          \<and> Unlink ''/tmp/sample-nl.txt'' \<in> set (actions r))"
  using C7_upload_failure_is_logged_only
    [of sample_event "''sample-en.txt''"
        "sample_services\<lparr>upload := \<lambda>b f d. Some ''forbidden''\<rparr>" sample_srt
        "[[''Hello'', ''world'']]" "[[''Hallo'', ''world'']]" "''sample-nl.txt''"
        "''/tmp/sample-nl.txt''"
        "js_join_lf (output' (insertTranslations (processData sample_srt)
                                (concatSegments [[''Hallo'', ''world'']])))"]
  by (simp add: sample_srt_requests sample_srt_nonempty sample_filename)
     (auto simp: sample_event_def sample_services_def)

text \<open>
  C8. The claim is that the output file name is the base name of the input file name with
  the language token \<open>-en\<close> that ends its stem replaced by \<open>-nl\<close>. For
  \<open>sample-en.txt\<close> the function gives \<open>sample-nl.txt\<close>, as claimed. But
  \<open>replace\<close> with a string pattern takes the first occurrence of \<open>-en\<close>, wherever
  it stands: for \<open>my-english-sub-en.txt\<close> the function gives
  \<open>my-nlglish-sub-en.txt\<close>, where the claim asks for \<open>my-english-sub-nl.txt\<close>; the
  language token is left in place.
\<close>

theorem C8_first_match_misses_language_token:
  "translatedFilename ''sample-en.txt'' = ''sample-nl.txt''
   \<and> translatedFilename ''my-english-sub-en.txt'' = ''my-nlglish-sub-en.txt''
   \<and> spec_translatedFilename ''my-english-sub-en.txt'' = ''my-english-sub-nl.txt''
   \<and> translatedFilename ''my-english-sub-en.txt'' \<noteq> spec_translatedFilename ''my-english-sub-en.txt''"
  by (simp add: translatedFilename_def spec_translatedFilename_def path_base_def
      SOURCE_LANGUAGE_def TARGET_LANGUAGE_def)

text \<open>
  C9. For every input text, the lines that the filter of \<open>translateSRTFiles\<close> keeps are
  the lines of \<open>content.sentences\<close> at the indices stored in \<open>content.requestLines\<close>,
  element for element and in the same order; the indices are strictly increasing, and each
  is within the bounds of \<open>content.sentences\<close>.
\<close>

theorem C9_filter_agrees_with_requestLines:
  "filter needsTranslation (sentences (processData data))
     = map (\<lambda>position. sentences (processData data) ! position) (requestLines (processData data))
   \<and> sorted_wrt (<) (requestLines (processData data))
   \<and> (\<forall>position \<in> set (requestLines (processData data)).
         position < length (sentences (processData data)))"
  using textPositions_nth[of "js_split_lf data" 0]
  by (auto simp: processData_eq textPositions_sorted dest: textPositions_bounds)

theorem C9_filter_agrees_with_requestLines_witness:
  "requestLines (processData sample_srt) = [2, 3]
   \<and> filter needsTranslation (sentences (processData sample_srt)) = [''Hello'', ''world'']
   \<and> map (\<lambda>position. sentences (processData sample_srt) ! position) [2, 3] = [''Hello'', ''world'']
   \<and> 3 < length (sentences (processData sample_srt))"
  using C9_filter_agrees_with_requestLines [of sample_srt]
  by (simp add: processData_eq sample_srt_def needsTranslation_def match_INDEX_LINE_def
      match_TIMESTAMP_LINE_def clock_atoms_def is_digit_def)

text \<open>
  C10, as stated, fails in its last part: with fewer translations than lines to translate,
  one of which contains a line feed, the output text has more lines than the input.
\<close>

theorem C10_line_feed_in_translation_counterexample:
  "length [''Hal'' @ [LF] @ ''lo''] < length (requestLines (processData (''Hello'' @ [LF] @ ''world'')))
   \<and> length (js_split_lf (''Hello'' @ [LF] @ ''world'')) = 2
   \<and> length (js_split_lf (js_join_lf (output' (insertTranslations
                 (processData (''Hello'' @ [LF] @ ''world'')) [''Hal'' @ [LF] @ ''lo''])))) = 3"
  by (simp add: processData_eq needsTranslation_def match_INDEX_LINE_def match_TIMESTAMP_LINE_def
      clock_atoms_def is_digit_def insertTranslations_def js_set_def js_index_def js_join_lf_def)

text \<open>
  C10, amended. If there are fewer translations than entries of \<open>content.requestLines\<close>,
  then at every position of \<open>requestLines\<close> past the translations the output array
  holds \<open>undefined\<close>, where the input has a line that is not empty, and the output array
  still has one entry for each line of the input. If moreover none of the translated
  strings contains a line feed, the output text has the empty line at that position and
  as many lines as the input.
\<close>

theorem C10_missing_translations_give_empty_lines:
  assumes "length translations \<le> i" and "i < length (requestLines (processData data))"
  shows "output' (insertTranslations (processData data) translations)
           ! (requestLines (processData data) ! i) = Undefined
       \<and> sentences (processData data) ! (requestLines (processData data) ! i) \<noteq> []
       \<and> length (output' (insertTranslations (processData data) translations))
           = length (js_split_lf data)
       \<and> ((\<forall>t \<in> set translations. LF \<notin> set t) \<longrightarrow>
             js_split_lf (js_join_lf (output' (insertTranslations (processData data) translations)))
               ! (requestLines (processData data) ! i) = []
             \<and> length (js_split_lf (js_join_lf
                   (output' (insertTranslations (processData data) translations))))
                 = length (js_split_lf data))"
proof -
  let ?p = "requestLines (processData data) ! i"
  have p: "?p \<in> set (textPositions 0 (js_split_lf data))"
    using assms(2) by (simp add: processData_eq)
  then have bound: "?p < length (js_split_lf data)"
    by (auto dest: textPositions_bounds)
  from textPositions_mem[OF bound, of 0] p have "needsTranslation (js_split_lf data ! ?p)"
    by simp
  then have orig: "sentences (processData data) ! ?p \<noteq> []"
    by (auto simp: needsTranslation_def processData_eq)
  have undef: "output' (insertTranslations (processData data) translations) ! ?p = Undefined"
    by (rule merged_surplus[OF assms])
  show ?thesis
  proof (intro conjI impI)
    assume "\<forall>t \<in> set translations. LF \<notin> set t"
    then show "js_split_lf (js_join_lf (output' (insertTranslations (processData data) translations)))
               ! ?p = []"
      using bound undef by (simp add: merged_lines merged_length)
  next
    assume "\<forall>t \<in> set translations. LF \<notin> set t"
    then show "length (js_split_lf (js_join_lf
                   (output' (insertTranslations (processData data) translations))))
                 = length (js_split_lf data)"
      by (simp add: merged_lines merged_length)
  qed (use undef orig merged_length in auto)
qed

theorem C10_missing_translations_give_empty_lines_witness:
  "length [''Hallo''] \<le> (1::nat) \<and> 1 < length (requestLines (processData sample_srt))
   \<and> LF \<notin> set ''Hallo''
   \<and> requestLines (processData sample_srt) ! 1 = 3
   \<and> output' (insertTranslations (processData sample_srt) [''Hallo'']) ! 3 = Undefined
   \<and> sentences (processData sample_srt) ! 3 = ''world''
   \<and> js_split_lf (js_join_lf (output' (insertTranslations (processData sample_srt) [''Hallo''])))
        = [''1'', ''00:00:01,000 --> 00:00:02,000'', ''Hallo'', [], []]"
  using C10_missing_translations_give_empty_lines [of "[''Hallo'']" 1 sample_srt]
  by (simp add: sample_srt_content insertTranslations_def js_set_def js_index_def js_join_lf_def)

end
